theory Spec2Isabelle
  imports Main "HOL-Library.Finite_Map"
begin

section \<open>Data model\<close>

text \<open>
  The types of package \<open>api\<close> and \<open>llm\<close> are declared outside the files verified here.
  They are modelled with the fields that \<open>server/prompt.go\<close> and the format file read or
  write. A Go \<open>[]byte\<close> is a list of naturals below 256; a Go \<open>int\<close> is an \<open>int\<close> (the
  only arithmetic is on slice lengths and on \<open>imageNumTokens * len(m.Images)\<close>, far
  from 64-bit overflow for any slice that fits in memory).
\<close>

type_synonym bytes = "nat list"

record Message =
  Role :: string
  Content :: string
  Images :: "bytes list"

record ImageData =
  ID :: int
  Data :: bytes
  AspectRatioID :: int

record Property =
  Type :: string
  Enum :: "string list"

text \<open>Modelled from the spec: \<open>api.ToolParameters\<close> (its declaration is not among the
  sources): a \<open>properties\<close> mapping from parameter name to type and enum, and the list
  of required names.\<close>

record ToolParameters =
  Properties :: "(string, Property) fmap"
  Required :: "string list"

record ToolFunction =
  Name :: string
  Parameters :: ToolParameters

record Tool =
  Function :: ToolFunction

record Options =
  NumCtx :: int

datatype error =
    errTooManyImages
  | errMissingAspectRatio
  | errTemplate string
  | errTokenize string
  | errPreprocess string

text \<open>
  \<open>Template\<close> stands for \<open>m.Template.Execute\<close> applied to
  \<open>template.Values{Messages, Tools}\<close>: the rendered text or the renderer's error.
  \<open>ProjectorPaths\<close> is \<open>None\<close> for Go's nil slice.
\<close>

record Model =
  ModelFamilies :: "string list"
  ProjectorPaths :: "string list option"
  Template :: "Message list \<Rightarrow> Tool list \<Rightarrow> error + string"

type_synonym tokenizeFunc = "string \<Rightarrow> error + int list"

text \<open>\<open>mllama.Preprocess\<close> followed by \<open>binary.Write\<close>: the encoded bytes and the
  \<open>aspectRatioIndex\<close> option when it is present as an int, or the error of either call.\<close>

type_synonym preprocessFunc = "bytes \<Rightarrow> error + (bytes \<times> int option)"

text \<open>The outcome of a piece of Go code: a value, a returned error, or a run-time panic.\<close>

datatype 'a outcome = Ok 'a | Err error | Panic

text \<open>What a call of \<open>chatPrompt\<close> does: it returns \<open>(prompt, images, err)\<close> or panics.\<close>

datatype chatPromptResult =
    Returns string "ImageData list" "error option"
  | Panics

section \<open>Go primitives\<close>

text \<open>\<open>xs[i]\<close> and \<open>xs[i:]\<close> panic out of range.\<close>

definition go_index :: "'a list \<Rightarrow> int \<Rightarrow> 'a option" where
  "go_index xs i = (if 0 \<le> i \<and> i < int (length xs) then Some (xs ! nat i) else None)"

definition go_slice_from :: "'a list \<Rightarrow> int \<Rightarrow> 'a list option" where
  "go_slice_from xs i = (if 0 \<le> i \<and> i \<le> int (length xs) then Some (drop (nat i) xs) else None)"

fun hasPrefix :: "string \<Rightarrow> string \<Rightarrow> bool" where
  "hasPrefix s [] = True"
| "hasPrefix [] (p # ps) = False"
| "hasPrefix (c # cs) (p # ps) = (c = p \<and> hasPrefix cs ps)"

text \<open>\<open>strings.Contains(s, substr)\<close>.\<close>

fun strings_Contains :: "string \<Rightarrow> string \<Rightarrow> bool" where
  "strings_Contains [] substr = (substr = [])"
| "strings_Contains (c # cs) substr = (hasPrefix (c # cs) substr \<or> strings_Contains cs substr)"

text \<open>\<open>strings.Replace(s, old, new, 1)\<close> for a non-empty \<open>old\<close>.\<close>

fun strings_Replace1 :: "string \<Rightarrow> string \<Rightarrow> string \<Rightarrow> string" where
  "strings_Replace1 [] old new = []"
| "strings_Replace1 (c # cs) old new =
     (if hasPrefix (c # cs) old then new @ drop (length old) (c # cs)
      else c # strings_Replace1 cs old new)"

fun decimal :: "nat \<Rightarrow> string" where
  "decimal n =
     (if n < 10 then [''0123456789'' ! n]
      else decimal (n div 10) @ [''0123456789'' ! (n mod 10)])"

text \<open>\<open>fmt.Sprintf("%d", i)\<close>.\<close>

definition sprintf_d :: "int \<Rightarrow> string" where
  "sprintf_d i = (if i < 0 then ''-'' @ decimal (nat (- i)) else decimal (nat i))"

section \<open>chatPrompt (server/prompt.go)\<close>

definition checkMllamaModelFamily :: "Model \<Rightarrow> bool" where
  "checkMllamaModelFamily m = (\<exists>arch \<in> set (ModelFamilies m). arch = ''mllama'')"

text \<open>Lines 31 to 39: the token cost of one image.\<close>

definition imageNumTokensFor :: "Model \<Rightarrow> int" where
  "imageNumTokensFor m = (if checkMllamaModelFamily m then 1 else 768)"

text \<open>The inner loop \<open>for j := range i\<close> that rebuilds \<open>system\<close>: the system-role messages
  among \<open>msgs[0..i-1]\<close>, in order.\<close>

definition systemBefore :: "Message list \<Rightarrow> int \<Rightarrow> Message list" where
  "systemBefore msgs i = filter (\<lambda>msg. Role msg = ''system'') (take (nat i) msgs)"

text \<open>The loop \<open>for _, m := range msgs[i:] { ctxLen += imageNumTokens * len(m.Images) }\<close>.\<close>

definition imagesCost :: "int \<Rightarrow> Message list \<Rightarrow> int" where
  "imagesCost imageNumTokens w = (\<Sum>msg\<leftarrow>w. imageNumTokens * int (length (Images msg)))"

text \<open>
  The reverse loop \<open>for i := n; i >= 0; i--\<close> of lines 43 to 83, from the loop variable
  \<open>i\<close> and the current values of \<open>n\<close> and \<open>system\<close>. It yields the final \<open>n\<close> and
  \<open>system\<close>, or the error the function returns from inside the loop.
\<close>

function scan ::
  "Model \<Rightarrow> tokenizeFunc \<Rightarrow> Options \<Rightarrow> Message list \<Rightarrow> Tool list \<Rightarrow> bool \<Rightarrow> int \<Rightarrow>
   int \<Rightarrow> int \<Rightarrow> Message list \<Rightarrow> (int \<times> Message list) outcome" where
  "scan m tokenize opts msgs tools isMllama imageNumTokens i n system =
     (if i \<ge> 0 then
        (case go_index msgs i of
           None \<Rightarrow> Panic
         | Some msg \<Rightarrow>
             if isMllama \<and> length (Images msg) > 1 then Err errTooManyImages
             else if i = n then
               scan m tokenize opts msgs tools isMllama imageNumTokens (i - 1) n system
             else
               (let system' = systemBefore msgs i in
                case go_slice_from msgs i of
                  None \<Rightarrow> Panic
                | Some w \<Rightarrow>
                    (case Template m (system' @ w) tools of
                       Inl e \<Rightarrow> Err e
                     | Inr b \<Rightarrow>
                         (case tokenize b of
                            Inl e \<Rightarrow> Err e
                          | Inr s \<Rightarrow>
                              (let ctxLen = int (length s) +
                                     (if ProjectorPaths m \<noteq> None
                                      then imagesCost imageNumTokens w else 0)
                               in if ctxLen > NumCtx opts then Ok (n, system')
                                  else scan m tokenize opts msgs tools isMllama imageNumTokens
                                         (i - 1) i system')))))
      else Ok (n, system))"
  by pat_completeness auto
termination
  by (relation "measure (\<lambda>(m, tokenize, opts, msgs, tools, isMllama, imageNumTokens, i, n, system).
                   nat (i + 1))") auto

declare scan.simps [simp del]

text \<open>The loop over \<open>msg.Images\<close> of lines 92 to 133, on the local variables
  \<open>prefix\<close>, \<open>imgPrompt\<close>, \<open>prompt\<close> and the result \<open>images\<close>.\<close>

fun tagImages ::
  "bool \<Rightarrow> preprocessFunc \<Rightarrow> bytes list \<Rightarrow> string \<times> string \<times> string \<times> ImageData list \<Rightarrow>
   (string \<times> string \<times> string \<times> ImageData list) outcome" where
  "tagImages isMllama preprocess [] st = Ok st"
| "tagImages isMllama preprocess (i # rest) (prefix, imgPrompt, prompt, images) =
     (case (if isMllama then
              (case preprocess i of
                 Inl e \<Rightarrow> Err e
               | Inr (buf, ar) \<Rightarrow>
                   (case ar of
                      None \<Rightarrow> Err errMissingAspectRatio
                    | Some a \<Rightarrow>
                        Ok (\<lparr>ID = int (length images), Data = buf, AspectRatioID = a\<rparr>,
                            ''<|image|>'')))
            else Ok (\<lparr>ID = int (length images), Data = i, AspectRatioID = 0\<rparr>, imgPrompt)) of
        Err e \<Rightarrow> Err e
      | Panic \<Rightarrow> Panic
      | Ok (imgData, imgPrompt') \<Rightarrow>
          (let imgTag = ''[img-'' @ sprintf_d (ID imgData) @ '']'' in
           if \<not> strings_Contains prompt ''[img]''
           then tagImages isMllama preprocess rest
                  (prefix @ imgTag, imgPrompt', prompt, images @ [imgData])
           else tagImages isMllama preprocess rest
                  (prefix, imgPrompt', strings_Replace1 prompt ''[img]'' imgTag,
                   images @ [imgData])))"

text \<open>The loop \<open>for cnt, msg := range msgs[currMsgIdx:]\<close> of lines 87 to 135: the window
  with the rewritten contents, and \<open>images\<close>.\<close>

fun tagMessages ::
  "bool \<Rightarrow> preprocessFunc \<Rightarrow> Message list \<Rightarrow> ImageData list \<Rightarrow>
   (Message list \<times> ImageData list) outcome" where
  "tagMessages isMllama preprocess [] images = Ok ([], images)"
| "tagMessages isMllama preprocess (msg # rest) images =
     (case tagImages isMllama preprocess (Images msg) ('''', '''', Content msg, images) of
        Err e \<Rightarrow> Err e
      | Panic \<Rightarrow> Panic
      | Ok (prefix, imgPrompt, prompt, images') \<Rightarrow>
          (case tagMessages isMllama preprocess rest images' of
             Err e \<Rightarrow> Err e
           | Panic \<Rightarrow> Panic
           | Ok (rest', images'') \<Rightarrow>
               Ok (msg\<lparr>Content := prefix @ imgPrompt @ prompt\<rparr> # rest', images'')))"

text \<open>Lines 27 to 85: the values of \<open>currMsgIdx\<close> and \<open>system\<close> after the reverse loop.\<close>

definition truncateMessages ::
  "Model \<Rightarrow> tokenizeFunc \<Rightarrow> Options \<Rightarrow> Message list \<Rightarrow> Tool list \<Rightarrow>
   (int \<times> Message list) outcome" where
  "truncateMessages m tokenize opts msgs tools =
     (let isMllama = checkMllamaModelFamily m;
          n = int (length msgs) - 1
      in scan m tokenize opts msgs tools isMllama (imageNumTokensFor m) n n [])"

text \<open>Lines 27 to 139: the message list handed to the template for the final render,
  \<open>append(system, msgs[currMsgIdx:]...)\<close>, and \<open>images\<close>.\<close>

definition chatMessages ::
  "Model \<Rightarrow> tokenizeFunc \<Rightarrow> preprocessFunc \<Rightarrow> Options \<Rightarrow> Message list \<Rightarrow> Tool list \<Rightarrow>
   (Message list \<times> ImageData list) outcome" where
  "chatMessages m tokenize preprocess opts msgs tools =
     (case truncateMessages m tokenize opts msgs tools of
        Err e \<Rightarrow> Err e
      | Panic \<Rightarrow> Panic
      | Ok (currMsgIdx, system) \<Rightarrow>
          (case go_slice_from msgs currMsgIdx of
             None \<Rightarrow> Panic
           | Some w \<Rightarrow>
               (case tagMessages (checkMllamaModelFamily m) preprocess w [] of
                  Err e \<Rightarrow> Err e
                | Panic \<Rightarrow> Panic
                | Ok (w', images) \<Rightarrow> Ok (system @ w', images))))"

definition chatPrompt ::
  "Model \<Rightarrow> tokenizeFunc \<Rightarrow> preprocessFunc \<Rightarrow> Options \<Rightarrow> Message list \<Rightarrow> Tool list \<Rightarrow>
   chatPromptResult" where
  "chatPrompt m tokenize preprocess opts msgs tools =
     (case chatMessages m tokenize preprocess opts msgs tools of
        Err e \<Rightarrow> Returns '''' [] (Some e)
      | Panic \<Rightarrow> Panics
      | Ok (final, images) \<Rightarrow>
          (case Template m final tools of
             Inl e \<Rightarrow> Returns '''' [] (Some e)
           | Inr b \<Rightarrow> Returns b images None))"


section \<open>Response format (the format file and server/prompt.go)\<close>

text \<open>
  The values the code builds from \<open>map[string]interface{}\<close>, \<open>[]string\<close>,
  \<open>[]interface{}\<close> and strings, which \<open>json.Marshal\<close> serialises. \<open>JParameters\<close> is
  an \<open>api.ToolParameters\<close> struct stored in such a map as it is.
\<close>

datatype json =
    JString string
  | JStrings "string list"
  | JArray "json list"
  | JObject "(string, json) fmap"
  | JParameters ToolParameters

definition parametersFormat :: "ToolParameters \<Rightarrow> json" where
  "parametersFormat parameters =
     (let properties =
            fmmap (\<lambda>param.
                     let field = fmap_of_list [(''type'', JString (Type param))]
                     in JObject (if length (Enum param) > 0
                                 then fmupd ''enum'' (JStrings (Enum param)) field
                                 else field))
                  (Properties parameters);
          result = fmap_of_list [(''type'', JString ''object''),
                                 (''properties'', JObject properties)]
      in JObject (if length (Required parameters) > 0
                  then fmupd ''required'' (JStrings (Required parameters)) result
                  else result))"

definition toolFormat :: "Tool \<Rightarrow> json" where
  "toolFormat tool =
     JObject (fmap_of_list
       [(''type'', JString ''object''),
        (''properties'', JObject (fmap_of_list
           [(''name'', JObject (fmap_of_list
               [(''type'', JString ''string''),
                (''enum'', JStrings [Name (Function tool)])])),
            (''parameters'', parametersFormat (Parameters (Function tool)))])),
        (''required'', JStrings [''name'', ''parameters''])])"

definition toolsFormat :: "Tool list \<Rightarrow> json" where
  "toolsFormat tools =
     (if length tools = 1 then toolFormat (tools ! 0)
      else JObject (fmap_of_list [(''anyOf'', JArray (map toolFormat tools))]))"

text \<open>
  \<open>chatFormat\<close> of the format file (lines 72 to 79). \<open>json_Marshal\<close> stands for
  \<open>json.Marshal\<close>, whose error the code discards; a \<open>json.RawMessage\<close> is a string of bytes.
\<close>

definition chatFormat :: "(json \<Rightarrow> string) \<Rightarrow> string \<Rightarrow> Tool list \<Rightarrow> string" where
  "chatFormat json_Marshal reqFormat tools =
     (if length reqFormat > 0 \<or> length tools = 0 then reqFormat
      else json_Marshal (toolsFormat tools))"

text \<open>The function of the same name in \<open>server/prompt.go\<close> (lines 159 to 188).\<close>

definition chatFormat_prompt_go :: "(json \<Rightarrow> string) \<Rightarrow> string \<Rightarrow> Tool list \<Rightarrow> string" where
  "chatFormat_prompt_go json_Marshal reqFormat tools =
     (if length reqFormat > 0 then reqFormat
      else
        (let toolFormats =
               map (\<lambda>tool. JObject (fmap_of_list
                      [(''type'', JString ''object''),
                       (''properties'', JObject (fmap_of_list
                          [(''name'', JObject (fmap_of_list
                              [(''type'', JString ''string''),
                               (''enum'', JStrings [Name (Function tool)])])),
                           (''parameters'', JParameters (Parameters (Function tool)))])),
                       (''required'', JStrings [''name'', ''parameters''])])) tools;
             resultFormat = fmap_of_list [(''anyOf'', JArray toolFormats)]
         in json_Marshal (JObject resultFormat)))"

section \<open>Notions the properties are stated with\<close>

text \<open>The value of \<open>ctxLen\<close> that the reverse loop compares with \<open>opts.NumCtx\<close> at index
  \<open>i\<close> (lines 60 to 75), or the error of the render or of the tokenizer.\<close>

definition contextLength ::
  "Model \<Rightarrow> tokenizeFunc \<Rightarrow> int \<Rightarrow> Message list \<Rightarrow> Tool list \<Rightarrow> int \<Rightarrow> error + int" where
  "contextLength m tokenize c msgs tools i =
     (case Template m (systemBefore msgs i @ drop (nat i) msgs) tools of
        Inl e \<Rightarrow> Inl e
      | Inr b \<Rightarrow>
          (case tokenize b of
             Inl e \<Rightarrow> Inl e
           | Inr s \<Rightarrow>
               Inr (int (length s) +
                    (if ProjectorPaths m \<noteq> None
                     then imagesCost c (drop (nat i) msgs) else 0))))"

definition withinBudget ::
  "Model \<Rightarrow> tokenizeFunc \<Rightarrow> Options \<Rightarrow> int \<Rightarrow> Message list \<Rightarrow> Tool list \<Rightarrow> int \<Rightarrow> bool" where
  "withinBudget m tokenize opts c msgs tools i =
     (case contextLength m tokenize c msgs tools i of
        Inl e \<Rightarrow> False
      | Inr l \<Rightarrow> l \<le> NumCtx opts)"

definition exceedsBudget ::
  "Model \<Rightarrow> tokenizeFunc \<Rightarrow> Options \<Rightarrow> int \<Rightarrow> Message list \<Rightarrow> Tool list \<Rightarrow> int \<Rightarrow> bool" where
  "exceedsBudget m tokenize opts c msgs tools i =
     (case contextLength m tokenize c msgs tools i of
        Inl e \<Rightarrow> False
      | Inr l \<Rightarrow> l > NumCtx opts)"

definition imageCount :: "Message list \<Rightarrow> nat" where
  "imageCount w = (\<Sum>msg\<leftarrow>w. length (Images msg))"

text \<open>
  The budget condition in the words of the specification: the token count of the
  render of the carried system messages followed by \<open>msgs[i:]\<close>, plus the image token
  cost times the number of images in \<open>msgs[i:]\<close>, is at most the budget.
\<close>

definition statedBudgetCondition ::
  "Model \<Rightarrow> tokenizeFunc \<Rightarrow> Options \<Rightarrow> Message list \<Rightarrow> Tool list \<Rightarrow> int \<Rightarrow> bool" where
  "statedBudgetCondition m tokenize opts msgs tools i =
     (case Template m (systemBefore msgs i @ drop (nat i) msgs) tools of
        Inl e \<Rightarrow> False
      | Inr b \<Rightarrow>
          (case tokenize b of
             Inl e \<Rightarrow> False
           | Inr s \<Rightarrow>
               int (length s) + imageNumTokensFor m * int (imageCount (drop (nat i) msgs))
                 \<le> NumCtx opts))"

section \<open>Concrete collaborators and requests\<close>

text \<open>A template that concatenates the contents, a tokenizer with one token per byte,
  and an image encoder that keeps the bytes and reports aspect ratio index 1.\<close>

definition renderContents :: "Message list \<Rightarrow> Tool list \<Rightarrow> error + string" where
  "renderContents msgs tools = Inr (concat (map Content msgs))"

definition tokenizeBytes :: tokenizeFunc where
  "tokenizeBytes s = Inr (map (\<lambda>c. 0) s)"

definition encodeIdentity :: preprocessFunc where
  "encodeIdentity i = Inr (i, Some 1)"

definition textModel :: Model where
  "textModel = \<lparr>ModelFamilies = [''llama''], ProjectorPaths = None, Template = renderContents\<rparr>"

definition clipModel :: Model where
  "clipModel = \<lparr>ModelFamilies = [''llama'', ''clip''], ProjectorPaths = Some [''projector''],
                 Template = renderContents\<rparr>"

definition mllamaModel :: Model where
  "mllamaModel = \<lparr>ModelFamilies = [''mllama''], ProjectorPaths = Some [''projector''],
                   Template = renderContents\<rparr>"

definition systemThenUser :: "Message list" where
  "systemThenUser = [\<lparr>Role = ''system'', Content = ''S'', Images = []\<rparr>,
                     \<lparr>Role = ''user'', Content = ''U'', Images = []\<rparr>]"

definition pictureThenText :: "Message list" where
  "pictureThenText = [\<lparr>Role = ''user'', Content = ''look'', Images = [[1, 2, 3]]\<rparr>,
                      \<lparr>Role = ''user'', Content = ''hi'', Images = []\<rparr>]"

definition twoPicturesFirst :: "Message list" where
  "twoPicturesFirst = [\<lparr>Role = ''user'', Content = ''two'', Images = [[1, 2], [3]]\<rparr>,
                       \<lparr>Role = ''user'', Content = ''a'', Images = []\<rparr>,
                       \<lparr>Role = ''user'', Content = ''b'', Images = []\<rparr>]"

definition picturesInPlace :: "Message list" where
  "picturesInPlace = [\<lparr>Role = ''user'', Content = ''see [img] and'', Images = [[1], [2]]\<rparr>,
                      \<lparr>Role = ''user'', Content = ''U'', Images = [[7]]\<rparr>]"

definition weatherTool :: Tool where
  "weatherTool =
     \<lparr>Function = \<lparr>Name = ''get_current_weather'',
        Parameters = \<lparr>Properties = fmap_of_list [(''location'', \<lparr>Type = ''string'', Enum = []\<rparr>)],
                      Required = [''location'']\<rparr>\<rparr>\<rparr>"

text \<open>The schema of the specification's round-trip example.\<close>

definition weatherSchema :: json where
  "weatherSchema =
     JObject (fmap_of_list
       [(''type'', JString ''object''),
        (''properties'', JObject (fmap_of_list
           [(''name'', JObject (fmap_of_list
               [(''type'', JString ''string''),
                (''enum'', JStrings [''get_current_weather''])])),
            (''parameters'', JObject (fmap_of_list
               [(''type'', JString ''object''),
                (''properties'', JObject (fmap_of_list
                   [(''location'', JObject (fmap_of_list [(''type'', JString ''string'')]))])),
                (''required'', JStrings [''location''])]))])),
        (''required'', JStrings [''name'', ''parameters''])])"

section \<open>Evaluation on concrete requests\<close>

lemmas chatPrompt_eval =
  chatPrompt_def chatMessages_def truncateMessages_def scan.simps go_index_def
  go_slice_from_def Let_def checkMllamaModelFamily_def imageNumTokensFor_def systemBefore_def
  imagesCost_def imageCount_def renderContents_def tokenizeBytes_def encodeIdentity_def
  textModel_def clipModel_def mllamaModel_def sprintf_d_def contextLength_def
  withinBudget_def exceedsBudget_def statedBudgetCondition_def

section \<open>The reverse loop\<close>

text \<open>
  What the reverse loop has established when it ends without an error, from a state in
  which \<open>i\<close> is \<open>n\<close> (the first iteration) or \<open>n - 1\<close> (every later one): all indices
  from the final \<open>n\<close> up to the initial one passed the budget check, the index below the
  final \<open>n\<close> failed it unless the final \<open>n\<close> is 0, and \<open>system\<close> holds the system messages
  before the last index that was checked.
\<close>

lemma scan_Ok:
  "scan m tokenize opts msgs tools isMllama c i n system = Ok (n', system') \<Longrightarrow>
   - 1 \<le> i \<Longrightarrow> i = n \<or> i = n - 1 \<Longrightarrow> 0 \<le> n \<Longrightarrow> n < int (length msgs) \<Longrightarrow>
   0 \<le> n' \<and> n' \<le> n \<and>
   (\<forall>j. n' \<le> j \<and> j < n \<longrightarrow> withinBudget m tokenize opts c msgs tools j) \<and>
   (i = n - 1 \<longrightarrow> (\<forall>j. n' \<le> j \<and> j \<le> i \<longrightarrow> withinBudget m tokenize opts c msgs tools j)) \<and>
   (n' = 0 \<or> exceedsBudget m tokenize opts c msgs tools (n' - 1)) \<and>
   (system' = systemBefore msgs (n' - 1) \<or> (n' = 0 \<and> n = 0 \<and> system' = system))"
proof (induction m tokenize opts msgs tools isMllama c i n system rule: scan.induct)
  case (1 m tokenize opts msgs tools isMllama c i n system)
  show ?case
  proof (cases "i \<ge> 0")
    case False
    with "1.prems" show ?thesis
      by (auto simp: scan.simps)
  next
    case True
    have idx: "go_index msgs i = Some (msgs ! nat i)"
      using True "1.prems" by (auto simp: go_index_def)
    have slc: "go_slice_from msgs i = Some (drop (nat i) msgs)"
      using True "1.prems" by (auto simp: go_slice_from_def)
    note run = "1.prems"(1) [unfolded scan.simps [of m tokenize opts msgs tools isMllama c i n system]]
    show ?thesis
    proof (cases "i = n")
      case first: True
      with run True idx have
        rec: "scan m tokenize opts msgs tools isMllama c (i - 1) n system = Ok (n', system')"
        and img: "\<not> (isMllama \<and> 1 < length (Images (msgs ! nat i)))"
        by (auto split: if_splits)
      have "0 \<le> n' \<and> n' \<le> n \<and>
        (\<forall>j. n' \<le> j \<and> j < n \<longrightarrow> withinBudget m tokenize opts c msgs tools j) \<and>
        (i - 1 = n - 1 \<longrightarrow> (\<forall>j. n' \<le> j \<and> j \<le> i - 1 \<longrightarrow> withinBudget m tokenize opts c msgs tools j)) \<and>
        (n' = 0 \<or> exceedsBudget m tokenize opts c msgs tools (n' - 1)) \<and>
        (system' = systemBefore msgs (n' - 1) \<or> (n' = 0 \<and> n = 0 \<and> system' = system))"
        using "1.IH"(1) [OF True idx img first rec] True first "1.prems" by simp
      with first show ?thesis by auto
    next
      case later: False
      with "1.prems" have i_n: "i = n - 1" by simp
      let ?sys = "systemBefore msgs i"
      let ?w = "drop (nat i) msgs"
      from run True idx slc later obtain b s where
        tpl: "Template m (?sys @ ?w) tools = Inr b" and tok: "tokenize b = Inr s"
        and img: "\<not> (isMllama \<and> 1 < length (Images (msgs ! nat i)))"
        by (auto simp: Let_def split: if_splits sum.splits)
      let ?ctxLen = "int (length s) + (if ProjectorPaths m \<noteq> None then imagesCost c ?w else 0)"
      have cl: "contextLength m tokenize c msgs tools i = Inr ?ctxLen"
        by (simp add: contextLength_def tpl tok)
      show ?thesis
      proof (cases "?ctxLen > NumCtx opts")
        case brk: True
        with run True idx slc later tpl tok img have "n' = n" "system' = ?sys"
          by (auto simp: Let_def split: if_splits)
        moreover have "exceedsBudget m tokenize opts c msgs tools i"
          using brk by (simp add: exceedsBudget_def cl)
        ultimately show ?thesis using i_n True by auto
      next
        case fit: False
        with run True idx slc later tpl tok img have
          rec: "scan m tokenize opts msgs tools isMllama c (i - 1) i ?sys = Ok (n', system')"
          by (auto simp: Let_def split: if_splits)
        have wb: "withinBudget m tokenize opts c msgs tools i"
          using fit by (simp add: withinBudget_def cl)
        have ih: "0 \<le> n' \<and> n' \<le> i \<and>
          (\<forall>j. n' \<le> j \<and> j < i \<longrightarrow> withinBudget m tokenize opts c msgs tools j) \<and>
          (n' = 0 \<or> exceedsBudget m tokenize opts c msgs tools (n' - 1)) \<and>
          (system' = systemBefore msgs (n' - 1) \<or> (n' = 0 \<and> i = 0 \<and> system' = ?sys))"
          using "1.IH"(2) [OF True idx img later refl slc tpl tok refl fit rec] True i_n "1.prems" by simp
        have sys0: "i = 0 \<Longrightarrow> ?sys = systemBefore msgs (0 - 1)"
          by (simp add: systemBefore_def)
        have "\<forall>j. n' \<le> j \<and> j \<le> i \<longrightarrow> withinBudget m tokenize opts c msgs tools j"
        proof (intro allI impI)
          fix j assume "n' \<le> j \<and> j \<le> i"
          then show "withinBudget m tokenize opts c msgs tools j"
            using ih wb by (cases "j = i") auto
        qed
        with ih sys0 i_n show ?thesis by auto
      qed
    qed
  qed
qed

lemma scan_no_panic:
  "- 1 \<le> i \<Longrightarrow> i \<le> n \<Longrightarrow> n < int (length msgs) \<Longrightarrow>
   scan m tokenize opts msgs tools isMllama c i n system \<noteq> Panic"
proof (induction m tokenize opts msgs tools isMllama c i n system rule: scan.induct)
  case (1 m tokenize opts msgs tools isMllama c i n system)
  show ?case
  proof (cases "i \<ge> 0")
    case False
    then show ?thesis by (simp add: scan.simps)
  next
    case True
    have idx: "go_index msgs i = Some (msgs ! nat i)"
      using True "1.prems" by (auto simp: go_index_def)
    have slc: "go_slice_from msgs i = Some (drop (nat i) msgs)"
      using True "1.prems" by (auto simp: go_slice_from_def)
    show ?thesis
      using "1.IH" "1.prems" True idx slc
      by (subst scan.simps) (auto simp: Let_def split: sum.splits)
  qed
qed

lemma truncateMessages_Ok:
  assumes "msgs \<noteq> []"
    and "truncateMessages m tokenize opts msgs tools = Ok (n, system)"
  shows "0 \<le> n" and "n < int (length msgs)"
    and "\<forall>j. n \<le> j \<and> j < int (length msgs) - 1 \<longrightarrow>
           withinBudget m tokenize opts (imageNumTokensFor m) msgs tools j"
    and "n = 0 \<or> exceedsBudget m tokenize opts (imageNumTokensFor m) msgs tools (n - 1)"
    and "system = systemBefore msgs (n - 1)"
proof -
  let ?N = "int (length msgs) - 1"
  from assms(1) have N: "0 \<le> ?N" "?N < int (length msgs)"
    by (cases msgs; simp)+
  from assms(2) have run:
    "scan m tokenize opts msgs tools (checkMllamaModelFamily m) (imageNumTokensFor m) ?N ?N [] =
     Ok (n, system)"
    by (simp add: truncateMessages_def Let_def)
  have all: "0 \<le> n \<and> n \<le> ?N \<and>
     (\<forall>j. n \<le> j \<and> j < ?N \<longrightarrow> withinBudget m tokenize opts (imageNumTokensFor m) msgs tools j) \<and>
     (?N = ?N - 1 \<longrightarrow>
        (\<forall>j. n \<le> j \<and> j \<le> ?N \<longrightarrow> withinBudget m tokenize opts (imageNumTokensFor m) msgs tools j)) \<and>
     (n = 0 \<or> exceedsBudget m tokenize opts (imageNumTokensFor m) msgs tools (n - 1)) \<and>
     (system = systemBefore msgs (n - 1) \<or> (n = 0 \<and> ?N = 0 \<and> system = []))"
    using scan_Ok [OF run] N by simp
  from all show "0 \<le> n" by simp
  from all N show "n < int (length msgs)" by simp
  from all show "\<forall>j. n \<le> j \<and> j < int (length msgs) - 1 \<longrightarrow>
           withinBudget m tokenize opts (imageNumTokensFor m) msgs tools j" by simp
  from all show "n = 0 \<or> exceedsBudget m tokenize opts (imageNumTokensFor m) msgs tools (n - 1)"
    by simp
  from all show "system = systemBefore msgs (n - 1)"
    by (auto simp: systemBefore_def)
qed

lemma truncateMessages_empty:
  "truncateMessages m tokenize opts [] tools = Ok (- 1, [])"
  by (simp add: truncateMessages_def scan.simps Let_def)

lemma withinBudget_mono:
  "NumCtx opts \<le> NumCtx opts' \<Longrightarrow> withinBudget m tokenize opts c msgs tools j \<Longrightarrow>
   withinBudget m tokenize opts' c msgs tools j"
  by (auto simp: withinBudget_def split: sum.splits)

lemma exceeds_not_within:
  "exceedsBudget m tokenize opts c msgs tools j \<Longrightarrow>
   \<not> withinBudget m tokenize opts c msgs tools j"
  by (auto simp: withinBudget_def exceedsBudget_def split: sum.splits)

lemma imagesCost_imageCount: "imagesCost c w = c * int (imageCount w)"
  by (induction w) (simp_all add: imagesCost_def imageCount_def algebra_simps)

lemma stated_iff_within:
  "ProjectorPaths m \<noteq> None \<Longrightarrow>
   statedBudgetCondition m tokenize opts msgs tools j =
   withinBudget m tokenize opts (imageNumTokensFor m) msgs tools j"
  by (auto simp: statedBudgetCondition_def withinBudget_def contextLength_def
      imagesCost_imageCount split: sum.splits)

section \<open>Image tagging\<close>

lemma tagImages_no_panic:
  "tagImages isMllama preprocess imgs (prefix, imgPrompt, prompt, images) \<noteq> Panic"
  by (induction imgs arbitrary: prefix imgPrompt prompt images)
    (auto simp: Let_def split: sum.splits option.splits)

text \<open>One iteration of the loop over the images appends one payload, whose id is the
  number of payloads so far.\<close>

lemma tagImages_Cons_Ok:
  assumes "tagImages isMllama preprocess (i # rest) (prefix, imgPrompt, prompt, images) = Ok r"
  obtains prefix2 imgPrompt2 prompt2 d where
    "tagImages isMllama preprocess rest (prefix2, imgPrompt2, prompt2, images @ [d]) = Ok r"
    "ID d = int (length images)" "\<not> isMllama \<Longrightarrow> Data d = i"
  using assms by (auto simp: Let_def split: sum.splits option.splits if_splits)

lemma tagImages_length:
  "tagImages isMllama preprocess imgs (prefix, imgPrompt, prompt, images) =
     Ok (prefix', imgPrompt', prompt', images') \<Longrightarrow>
   length images' = length images + length imgs"
proof (induction imgs arbitrary: prefix imgPrompt prompt images)
  case Nil
  then show ?case by simp
next
  case (Cons i rest)
  from Cons.prems obtain prefix2 imgPrompt2 prompt2 d where
    "tagImages isMllama preprocess rest (prefix2, imgPrompt2, prompt2, images @ [d]) =
       Ok (prefix', imgPrompt', prompt', images')"
    by (rule tagImages_Cons_Ok)
  from Cons.IH [OF this] show ?case by simp
qed

lemma tagImages_ids:
  "tagImages isMllama preprocess imgs (prefix, imgPrompt, prompt, images) =
     Ok (prefix', imgPrompt', prompt', images') \<Longrightarrow>
   map ID images = map int [0..<length images] \<Longrightarrow>
   map ID images' = map int [0..<length images']"
proof (induction imgs arbitrary: prefix imgPrompt prompt images)
  case Nil
  then show ?case by simp
next
  case (Cons i rest)
  from Cons.prems(1) obtain prefix2 imgPrompt2 prompt2 d where
    step: "tagImages isMllama preprocess rest (prefix2, imgPrompt2, prompt2, images @ [d]) =
       Ok (prefix', imgPrompt', prompt', images')"
    and d: "ID d = int (length images)"
    by (rule tagImages_Cons_Ok)
  have "map ID (images @ [d]) = map int [0..<length (images @ [d])]"
    using Cons.prems(2) d by simp
  from Cons.IH [OF step this] show ?case .
qed

lemma tagImages_data:
  "tagImages False preprocess imgs (prefix, imgPrompt, prompt, images) =
     Ok (prefix', imgPrompt', prompt', images') \<Longrightarrow>
   map Data images' = map Data images @ imgs"
proof (induction imgs arbitrary: prefix imgPrompt prompt images)
  case Nil
  then show ?case by simp
next
  case (Cons i rest)
  from Cons.prems(1) obtain prefix2 imgPrompt2 prompt2 d where
    step: "tagImages False preprocess rest (prefix2, imgPrompt2, prompt2, images @ [d]) =
       Ok (prefix', imgPrompt', prompt', images')"
    and d: "Data d = i"
    by (rule tagImages_Cons_Ok) simp
  from Cons.IH [OF step] d show ?case by simp
qed

lemma tagMessages_no_panic:
  "tagMessages isMllama preprocess w images \<noteq> Panic"
  by (induction w arbitrary: images)
    (auto simp: tagImages_no_panic split: outcome.splits prod.splits)

lemma tagMessages_length:
  "tagMessages isMllama preprocess w images = Ok (w', images') \<Longrightarrow>
   length images' = length images + imageCount w"
  by (induction w arbitrary: images w')
    (auto simp: imageCount_def dest!: tagImages_length split: outcome.splits)

lemma tagMessages_ids:
  "tagMessages isMllama preprocess w images = Ok (w', images') \<Longrightarrow>
   map ID images = map int [0..<length images] \<Longrightarrow>
   map ID images' = map int [0..<length images']"
proof (induction w arbitrary: images w')
  case Nil
  then show ?case by simp
next
  case (Cons msg rest)
  from Cons.prems(1) obtain prefix imgPrompt prompt mid rest' where
    one: "tagImages isMllama preprocess (Images msg) ('''', '''', Content msg, images) =
            Ok (prefix, imgPrompt, prompt, mid)"
    and more: "tagMessages isMllama preprocess rest mid = Ok (rest', images')"
    by (auto split: outcome.splits)
  from Cons.IH [OF more tagImages_ids [OF one Cons.prems(2)]] show ?case .
qed

lemma tagMessages_data:
  "tagMessages False preprocess w images = Ok (w', images') \<Longrightarrow>
   map Data images' = map Data images @ concat (map Images w)"
proof (induction w arbitrary: images w')
  case Nil
  then show ?case by simp
next
  case (Cons msg rest)
  from Cons.prems obtain prefix imgPrompt prompt mid rest' where
    one: "tagImages False preprocess (Images msg) ('''', '''', Content msg, images) =
            Ok (prefix, imgPrompt, prompt, mid)"
    and more: "tagMessages False preprocess rest mid = Ok (rest', images')"
    by (auto split: outcome.splits)
  from tagImages_data [OF one] Cons.IH [OF more] show ?case by simp
qed

text \<open>Tagging keeps the number of messages, and the role and the images of each; a
  message without images is left as it is.\<close>

lemma tagMessages_window:
  "tagMessages isMllama preprocess w images = Ok (w', images') \<Longrightarrow>
   list_all2 (\<lambda>a b. Role b = Role a \<and> Images b = Images a \<and> (Images a = [] \<longrightarrow> b = a)) w w'"
  by (induction w arbitrary: images w') (auto split: outcome.splits)

lemma list_all2_last:
  "list_all2 P xs ys \<Longrightarrow> xs \<noteq> [] \<Longrightarrow> P (last xs) (last ys)"
  by (induction rule: list_all2_induct) (auto simp: list_all2_Nil)

lemma chatMessages_Ok:
  assumes "chatMessages m tokenize preprocess opts msgs tools = Ok (final, images)"
  obtains n system w where
    "truncateMessages m tokenize opts msgs tools = Ok (n, system)"
    "msgs \<noteq> []" "0 \<le> n" "n < int (length msgs)"
    "tagMessages (checkMllamaModelFamily m) preprocess (drop (nat n) msgs) [] = Ok (w, images)"
    "final = system @ w"
proof -
  have ne: "msgs \<noteq> []"
  proof
    assume "msgs = []"
    with assms show False
      by (simp add: chatMessages_def truncateMessages_empty go_slice_from_def)
  qed
  from assms obtain n system where
    tr: "truncateMessages m tokenize opts msgs tools = Ok (n, system)"
    by (auto simp: chatMessages_def split: outcome.splits)
  note b = truncateMessages_Ok(1,2) [OF ne tr]
  then have slc: "go_slice_from msgs n = Some (drop (nat n) msgs)"
    by (simp add: go_slice_from_def)
  from assms tr slc obtain w where
    "tagMessages (checkMllamaModelFamily m) preprocess (drop (nat n) msgs) [] = Ok (w, images)"
    "final = system @ w"
    by (auto simp: chatMessages_def split: outcome.splits)
  with that tr ne b show thesis by blast
qed

lemma chatPrompt_Returns:
  assumes "chatPrompt m tokenize preprocess opts msgs tools = Returns p images None"
  obtains final where
    "chatMessages m tokenize preprocess opts msgs tools = Ok (final, images)"
    "Template m final tools = Inr p"
  using assms by (auto simp: chatPrompt_def split: outcome.splits sum.splits)

text \<open>
  Under the packed-embedding family the reverse loop stops with \<open>errTooManyImages\<close> at
  the first message with more than one image that it reaches: from index \<open>i\<close> it
  reaches index \<open>k\<close> when every index between them passes the budget check.
\<close>

lemma scan_too_many:
  "isMllama \<Longrightarrow> 0 \<le> k \<Longrightarrow> k \<le> i \<Longrightarrow> i \<le> n \<Longrightarrow> n < int (length msgs) \<Longrightarrow>
   1 < length (Images (msgs ! nat k)) \<Longrightarrow>
   (\<forall>j. k < j \<and> j \<le> i \<and> j \<noteq> n \<longrightarrow> withinBudget m tokenize opts c msgs tools j) \<Longrightarrow>
   scan m tokenize opts msgs tools isMllama c i n system = Err errTooManyImages"
proof (induction m tokenize opts msgs tools isMllama c i n system rule: scan.induct)
  case (1 m tokenize opts msgs tools isMllama c i n system)
  from "1.prems" have pos: "0 \<le> i" by simp
  have idx: "go_index msgs i = Some (msgs ! nat i)"
    using pos "1.prems" by (auto simp: go_index_def)
  have slc: "go_slice_from msgs i = Some (drop (nat i) msgs)"
    using pos "1.prems" by (auto simp: go_slice_from_def)
  show ?case
  proof (cases "1 < length (Images (msgs ! nat i))")
    case True
    with pos idx "1.prems"(1) show ?thesis
      by (subst scan.simps) simp
  next
    case one: False
    with "1.prems" have below: "k \<le> i - 1" "k \<noteq> i"
      by (auto simp: order_less_le)
    have img: "\<not> (isMllama \<and> 1 < length (Images (msgs ! nat i)))"
      using one by simp
    show ?thesis
    proof (cases "i = n")
      case first: True
      have "scan m tokenize opts msgs tools isMllama c (i - 1) n system = Err errTooManyImages"
        using "1.IH"(1) [OF pos idx img first] "1.prems" below by simp
      with pos idx img first show ?thesis
        by (subst scan.simps) simp
    next
      case later: False
      with "1.prems" below have "withinBudget m tokenize opts c msgs tools i"
        by simp
      then obtain b s where
        tpl: "Template m (systemBefore msgs i @ drop (nat i) msgs) tools = Inr b"
        and tok: "tokenize b = Inr s"
        and fit: "\<not> NumCtx opts < int (length s) +
                   (if ProjectorPaths m \<noteq> None then imagesCost c (drop (nat i) msgs) else 0)"
        by (auto simp: withinBudget_def contextLength_def split: sum.splits)
      have "scan m tokenize opts msgs tools isMllama c (i - 1) i (systemBefore msgs i) =
            Err errTooManyImages"
        using "1.IH"(2) [OF pos idx img later refl slc tpl tok refl fit] "1.prems" below
        by simp
      with pos idx img later slc tpl tok fit show ?thesis
        by (subst scan.simps) (simp add: Let_def)
    qed
  qed
qed

section \<open>Properties of chatPrompt\<close>

text \<open>
  C10. For the empty message list \<open>n = -1\<close>, the reverse loop does not run, and
  \<open>msgs[currMsgIdx:]\<close> with \<open>currMsgIdx = -1\<close> panics: \<open>chatPrompt\<close> returns neither a
  result nor an error value.
\<close>

theorem chatPrompt_empty_panics:
  "chatPrompt m tokenize preprocess opts [] tools = Panics"
  by (simp add: chatPrompt_def chatMessages_def truncateMessages_def scan.simps
      go_slice_from_def Let_def)

text \<open>The empty list is the only request on which \<open>chatPrompt\<close> panics.\<close>

lemma chatPrompt_nonempty_returns:
  assumes "msgs \<noteq> []"
  shows "chatPrompt m tokenize preprocess opts msgs tools \<noteq> Panics"
proof -
  let ?N = "int (length msgs) - 1"
  from assms have N: "- 1 \<le> ?N" "?N \<le> ?N" "?N < int (length msgs)"
    by simp_all
  have "truncateMessages m tokenize opts msgs tools \<noteq> Panic"
    unfolding truncateMessages_def Let_def by (rule scan_no_panic [OF N])
  moreover have "go_slice_from msgs n \<noteq> None"
    if "truncateMessages m tokenize opts msgs tools = Ok (n, system)" for n system
    using truncateMessages_Ok(1,2) [OF assms that] by (simp add: go_slice_from_def)
  ultimately show ?thesis
    by (auto simp: chatPrompt_def chatMessages_def tagMessages_no_panic
        split: outcome.splits sum.splits option.splits)
qed

text \<open>
  C1. When \<open>chatPrompt\<close> returns a prompt, the message list is not empty and the prompt
  is the render of the carried system messages followed by a window \<open>w\<close> that stands for
  \<open>msgs[n:]\<close> with \<open>0 \<le> n < len(msgs)\<close>: the window is not empty and its last message
  is the last message of the request (same role and images; the same message when it
  carries no image, since tagging rewrites the content of messages with images only).
  The budget does not occur in the conclusion.
\<close>

theorem chatPrompt_window_keeps_last:
  assumes "chatPrompt m tokenize preprocess opts msgs tools = Returns p images None"
  shows "msgs \<noteq> [] \<and>
    (\<exists>n system w.
       truncateMessages m tokenize opts msgs tools = Ok (n, system) \<and>
       0 \<le> n \<and> n < int (length msgs) \<and>
       Template m (system @ w) tools = Inr p \<and>
       length w = length (drop (nat n) msgs) \<and> w \<noteq> [] \<and>
       Role (last w) = Role (last msgs) \<and> Images (last w) = Images (last msgs) \<and>
       (Images (last msgs) = [] \<longrightarrow> last w = last msgs))"
proof -
  from assms obtain final where
    cm: "chatMessages m tokenize preprocess opts msgs tools = Ok (final, images)"
    and tpl: "Template m final tools = Inr p"
    by (rule chatPrompt_Returns)
  from cm obtain n system w where
    tr: "truncateMessages m tokenize opts msgs tools = Ok (n, system)"
    and ne: "msgs \<noteq> []" and n: "0 \<le> n" "n < int (length msgs)"
    and tag: "tagMessages (checkMllamaModelFamily m) preprocess (drop (nat n) msgs) [] =
                Ok (w, images)"
    and final: "final = system @ w"
    by (rule chatMessages_Ok)
  let ?win = "drop (nat n) msgs"
  from n have win: "?win \<noteq> []" "last ?win = last msgs"
    by (simp_all add: last_drop)
  note rel = tagMessages_window [OF tag]
  have len: "length w = length ?win"
    by (rule list_all2_lengthD [OF rel, symmetric])
  with win have w: "w \<noteq> []" by auto
  from list_all2_last [OF rel win(1)] win(2) have
    "Role (last w) = Role (last msgs) \<and> Images (last w) = Images (last msgs) \<and>
     (Images (last msgs) = [] \<longrightarrow> last w = last msgs)"
    by simp
  with ne tr n tpl final len w show ?thesis by blast
qed

theorem chatPrompt_window_keeps_last_witness:
  "chatPrompt textModel tokenizeBytes encodeIdentity \<lparr>NumCtx = 0\<rparr> systemThenUser [] =
     Returns ''U'' [] None \<and>
   (\<exists>n system w.
       truncateMessages textModel tokenizeBytes \<lparr>NumCtx = 0\<rparr> systemThenUser [] = Ok (n, system) \<and>
       0 \<le> n \<and> n < int (length systemThenUser) \<and>
       Template textModel (system @ w) [] = Inr ''U'' \<and>
       length w = length (drop (nat n) systemThenUser) \<and> w \<noteq> [] \<and>
       Role (last w) = Role (last systemThenUser) \<and>
       Images (last w) = Images (last systemThenUser) \<and>
       (Images (last systemThenUser) = [] \<longrightarrow> last w = last systemThenUser))"
proof -
  have run: "chatPrompt textModel tokenizeBytes encodeIdentity \<lparr>NumCtx = 0\<rparr> systemThenUser [] =
     Returns ''U'' [] None"
    by (simp add: chatPrompt_eval systemThenUser_def)
  from chatPrompt_window_keeps_last [OF run] run show ?thesis by blast
qed

text \<open>
  C2, as stated, fails: the image term is added only when the model has projector
  paths (line 71). On a model without them the loop accepts index 0 of a request whose
  first message carries an image with 6 tokens against a budget of 10, where the stated
  condition asks for \<open>6 + 768 \<le> 10\<close>.
\<close>

theorem stated_budget_condition_counterexample:
  "truncateMessages textModel tokenizeBytes \<lparr>NumCtx = 10\<rparr> pictureThenText [] = Ok (0, []) \<and>
   0 < int (length pictureThenText) - 1 \<and>
   \<not> statedBudgetCondition textModel tokenizeBytes \<lparr>NumCtx = 10\<rparr> pictureThenText [] 0"
  by (simp add: chatPrompt_eval pictureThenText_def)

text \<open>
  C2, amended. With \<open>ctxLen\<close> as the code computes it (the image term counted only when
  the model has projector paths), the window start \<open>n\<close> of a non-empty request is the
  boundary of the backward scan: every index from \<open>n\<close> below the last one satisfies the
  budget, and \<open>n\<close> is 0 or the render at \<open>n - 1\<close> exceeds the budget. For a model with
  projector paths this is the budget condition as the specification states it.
\<close>

theorem truncateMessages_budget_boundary:
  assumes "msgs \<noteq> []"
    and "truncateMessages m tokenize opts msgs tools = Ok (n, system)"
  shows "(\<forall>j. n \<le> j \<and> j < int (length msgs) - 1 \<longrightarrow>
            withinBudget m tokenize opts (imageNumTokensFor m) msgs tools j) \<and>
         (ProjectorPaths m \<noteq> None \<longrightarrow>
            (\<forall>j. n \<le> j \<and> j < int (length msgs) - 1 \<longrightarrow>
               statedBudgetCondition m tokenize opts msgs tools j)) \<and>
         (n = 0 \<or> exceedsBudget m tokenize opts (imageNumTokensFor m) msgs tools (n - 1))"
  using truncateMessages_Ok(3,4) [OF assms] by (simp add: stated_iff_within)

theorem truncateMessages_budget_boundary_witness:
  "twoPicturesFirst \<noteq> [] \<and>
   truncateMessages clipModel tokenizeBytes \<lparr>NumCtx = 2\<rparr> twoPicturesFirst [] = Ok (1, []) \<and>
   ProjectorPaths clipModel \<noteq> None \<and>
   withinBudget clipModel tokenizeBytes \<lparr>NumCtx = 2\<rparr> (imageNumTokensFor clipModel)
     twoPicturesFirst [] 1 \<and>
   statedBudgetCondition clipModel tokenizeBytes \<lparr>NumCtx = 2\<rparr> twoPicturesFirst [] 1 \<and>
   exceedsBudget clipModel tokenizeBytes \<lparr>NumCtx = 2\<rparr> (imageNumTokensFor clipModel)
     twoPicturesFirst [] 0"
proof -
  have ne: "twoPicturesFirst \<noteq> []"
    by (simp add: twoPicturesFirst_def)
  have run: "truncateMessages clipModel tokenizeBytes \<lparr>NumCtx = 2\<rparr> twoPicturesFirst [] =
     Ok (1, [])"
    by (simp add: chatPrompt_eval twoPicturesFirst_def)
  have proj: "ProjectorPaths clipModel \<noteq> None"
    by (simp add: clipModel_def)
  have len: "int (length twoPicturesFirst) - 1 = 2"
    by (simp add: twoPicturesFirst_def)
  from truncateMessages_budget_boundary [OF ne run] ne run proj len show ?thesis
    by simp
qed

text \<open>
  C4. For a fixed request, template and tokenizer, when \<open>chatPrompt\<close>'s truncation
  selects a window under budget \<open>B\<close> and one under \<open>B' \<ge> B\<close>, the window under \<open>B'\<close>
  starts no later and holds at least as many messages.
\<close>

theorem window_monotone_in_budget:
  assumes "truncateMessages m tokenize opts msgs tools = Ok (n, system)"
    and "truncateMessages m tokenize opts' msgs tools = Ok (n', system')"
    and "NumCtx opts \<le> NumCtx opts'"
  shows "n' \<le> n \<and> length (drop (nat n) msgs) \<le> length (drop (nat n') msgs)"
proof (cases "msgs = []")
  case True
  with assms show ?thesis by (simp add: truncateMessages_empty)
next
  case False
  note small = truncateMessages_Ok [OF False assms(1)]
  note large = truncateMessages_Ok [OF False assms(2)]
  have "n' \<le> n"
  proof (rule ccontr)
    assume "\<not> n' \<le> n"
    then have gt: "n < n'" by simp
    with large(4) have ex: "exceedsBudget m tokenize opts' (imageNumTokensFor m) msgs tools (n' - 1)"
      using small(1) by auto
    from gt large(2) have "n \<le> n' - 1 \<and> n' - 1 < int (length msgs) - 1" by simp
    with small(3) have "withinBudget m tokenize opts (imageNumTokensFor m) msgs tools (n' - 1)"
      by blast
    from withinBudget_mono [OF assms(3) this] exceeds_not_within [OF ex] show False
      by simp
  qed
  with large(1) show ?thesis by simp
qed

theorem window_monotone_in_budget_witness:
  "truncateMessages textModel tokenizeBytes \<lparr>NumCtx = 2\<rparr> twoPicturesFirst [] = Ok (1, []) \<and>
   truncateMessages textModel tokenizeBytes \<lparr>NumCtx = 100\<rparr> twoPicturesFirst [] = Ok (0, []) \<and>
   NumCtx \<lparr>NumCtx = 2\<rparr> \<le> NumCtx \<lparr>NumCtx = 100\<rparr> \<and>
   (0::int) \<le> 1 \<and>
   length (drop (nat 1) twoPicturesFirst) \<le> length (drop (nat 0) twoPicturesFirst)"
proof -
  have small: "truncateMessages textModel tokenizeBytes \<lparr>NumCtx = 2\<rparr> twoPicturesFirst [] =
     Ok (1, [])"
    by (simp add: chatPrompt_eval twoPicturesFirst_def)
  have large: "truncateMessages textModel tokenizeBytes \<lparr>NumCtx = 100\<rparr> twoPicturesFirst [] =
     Ok (0, [])"
    by (simp add: chatPrompt_eval twoPicturesFirst_def)
  have le: "NumCtx \<lparr>NumCtx = 2\<rparr> \<le> NumCtx \<lparr>NumCtx = 100\<rparr>"
    by simp
  from window_monotone_in_budget [OF small large le] small large le show ?thesis
    by simp
qed

text \<open>The carried system messages are those before index \<open>n - 1\<close>, where \<open>n\<close> is the
  start of the window: the message at \<open>n - 1\<close> is not among them.\<close>

lemma carried_system_messages:
  assumes "msgs \<noteq> []"
    and "truncateMessages m tokenize opts msgs tools = Ok (n, system)"
  shows "system = filter (\<lambda>msg. Role msg = ''system'') (take (nat (n - 1)) msgs)"
  using truncateMessages_Ok(5) [OF assms] by (simp add: systemBefore_def)

text \<open>
  C3. The doc comment of \<open>chatPrompt\<close> promises that system messages are always
  included. When the loop breaks at index \<open>i\<close>, \<open>system\<close> holds the system messages before
  \<open>i\<close> and the window is \<open>msgs[i+1:]\<close>, so a system message at index \<open>i\<close> itself is neither
  carried nor in the window. With a system message followed by a user message and a
  budget of one token, the list that is rendered holds the user message only.
\<close>

theorem system_message_at_break_dropped:
  "chatMessages textModel tokenizeBytes encodeIdentity \<lparr>NumCtx = 1\<rparr> systemThenUser [] =
     Ok ([\<lparr>Role = ''user'', Content = ''U'', Images = []\<rparr>], []) \<and>
   chatPrompt textModel tokenizeBytes encodeIdentity \<lparr>NumCtx = 1\<rparr> systemThenUser [] =
     Returns ''U'' [] None"
  by (simp add: chatPrompt_eval systemThenUser_def)

text \<open>
  C5, as stated, fails: the image count is checked inside the reverse loop, so a
  message that the loop never reaches is not checked. With three messages of which the
  first carries two images and a budget of one token, the loop breaks at index 1 and the
  call succeeds.
\<close>

theorem too_many_images_counterexample:
  "checkMllamaModelFamily mllamaModel \<and>
   length (Images (twoPicturesFirst ! 0)) = 2 \<and>
   chatPrompt mllamaModel tokenizeBytes encodeIdentity \<lparr>NumCtx = 1\<rparr> twoPicturesFirst [] =
     Returns ''b'' [] None"
  by (simp add: chatPrompt_eval twoPicturesFirst_def)

text \<open>
  C5, amended. When the model is of the mllama family and the message at index \<open>k\<close>
  carries two or more images, and every index between \<open>k\<close> and the last one passes the
  budget check (so that the reverse loop reaches \<open>k\<close>), \<open>chatPrompt\<close> returns
  \<open>errTooManyImages\<close> with an empty prompt and no image payloads.
\<close>

theorem too_many_images_when_reached:
  assumes "checkMllamaModelFamily m"
    and "0 \<le> k" and "k < int (length msgs)"
    and "1 < length (Images (msgs ! nat k))"
    and "\<forall>j. k < j \<and> j < int (length msgs) - 1 \<longrightarrow>
           withinBudget m tokenize opts (imageNumTokensFor m) msgs tools j"
  shows "chatPrompt m tokenize preprocess opts msgs tools =
           Returns '''' [] (Some errTooManyImages)"
proof -
  let ?N = "int (length msgs) - 1"
  have reach: "\<forall>j. k < j \<and> j \<le> ?N \<and> j \<noteq> ?N \<longrightarrow>
      withinBudget m tokenize opts (imageNumTokensFor m) msgs tools j"
    using assms(5) by simp
  have "scan m tokenize opts msgs tools (checkMllamaModelFamily m) (imageNumTokensFor m)
          ?N ?N [] = Err errTooManyImages"
    using assms(1-4) by (intro scan_too_many [OF _ _ _ _ _ _ reach]) simp_all
  then show ?thesis
    by (simp add: chatPrompt_def chatMessages_def truncateMessages_def Let_def)
qed

theorem too_many_images_when_reached_witness:
  "checkMllamaModelFamily mllamaModel \<and>
   1 < length (Images (twoPicturesFirst ! nat 0)) \<and>
   withinBudget mllamaModel tokenizeBytes \<lparr>NumCtx = 100\<rparr> (imageNumTokensFor mllamaModel)
     twoPicturesFirst [] 1 \<and>
   chatPrompt mllamaModel tokenizeBytes encodeIdentity \<lparr>NumCtx = 100\<rparr> twoPicturesFirst [] =
     Returns '''' [] (Some errTooManyImages)"
proof -
  have fam: "checkMllamaModelFamily mllamaModel"
    by (simp add: checkMllamaModelFamily_def mllamaModel_def)
  have k: "(0::int) \<le> 0" "0 < int (length twoPicturesFirst)"
    by (simp_all add: twoPicturesFirst_def)
  have two: "1 < length (Images (twoPicturesFirst ! nat 0))"
    by (simp add: twoPicturesFirst_def)
  have mid: "withinBudget mllamaModel tokenizeBytes \<lparr>NumCtx = 100\<rparr>
      (imageNumTokensFor mllamaModel) twoPicturesFirst [] 1"
    by (simp add: chatPrompt_eval twoPicturesFirst_def)
  have reach: "\<forall>j. 0 < j \<and> j < int (length twoPicturesFirst) - 1 \<longrightarrow>
      withinBudget mllamaModel tokenizeBytes \<lparr>NumCtx = 100\<rparr>
        (imageNumTokensFor mllamaModel) twoPicturesFirst [] j"
  proof (intro allI impI)
    fix j :: int
    assume "0 < j \<and> j < int (length twoPicturesFirst) - 1"
    then have "j = 1" by (simp add: twoPicturesFirst_def)
    with mid show "withinBudget mllamaModel tokenizeBytes \<lparr>NumCtx = 100\<rparr>
        (imageNumTokensFor mllamaModel) twoPicturesFirst [] j"
      by simp
  qed
  from too_many_images_when_reached [OF fam k two reach] fam two mid show ?thesis
    by simp
qed

text \<open>
  C6. The image payloads that \<open>chatPrompt\<close> returns carry the ids 0, 1, ..., k-1 in
  this order: each id is the position of the payload in the returned sequence.
\<close>

theorem image_ids_are_positions:
  assumes "chatPrompt m tokenize preprocess opts msgs tools = Returns p images e"
  shows "map ID images = map int [0..<length images]"
proof (cases e)
  case (Some err)
  with assms have "images = []"
    by (auto simp: chatPrompt_def split: outcome.splits sum.splits)
  then show ?thesis by simp
next
  case None
  with assms obtain final where
    "chatMessages m tokenize preprocess opts msgs tools = Ok (final, images)"
    by (auto elim: chatPrompt_Returns)
  then obtain n w where
    "tagMessages (checkMllamaModelFamily m) preprocess (drop (nat n) msgs) [] = Ok (w, images)"
    by (auto elim: chatMessages_Ok)
  from tagMessages_ids [OF this] show ?thesis by simp
qed

theorem image_ids_are_positions_witness:
  "chatPrompt clipModel tokenizeBytes encodeIdentity \<lparr>NumCtx = 4096\<rparr> picturesInPlace [] =
     Returns ''[img-1]see [img-0] and[img-2]U''
       [\<lparr>ID = 0, Data = [1], AspectRatioID = 0\<rparr>,
        \<lparr>ID = 1, Data = [2], AspectRatioID = 0\<rparr>,
        \<lparr>ID = 2, Data = [7], AspectRatioID = 0\<rparr>] None \<and>
   map ID [\<lparr>ID = 0, Data = [1], AspectRatioID = 0\<rparr>,
           \<lparr>ID = 1, Data = [2], AspectRatioID = 0\<rparr>,
           \<lparr>ID = 2, Data = [7], AspectRatioID = 0\<rparr>] =
   map int [0..<length [\<lparr>ID = 0, Data = [1], AspectRatioID = 0\<rparr>,
                        \<lparr>ID = 1, Data = [2], AspectRatioID = 0\<rparr>,
                        \<lparr>ID = 2, Data = [7::nat], AspectRatioID = 0\<rparr>]]"
proof -
  have run: "chatPrompt clipModel tokenizeBytes encodeIdentity \<lparr>NumCtx = 4096\<rparr>
      picturesInPlace [] =
     Returns ''[img-1]see [img-0] and[img-2]U''
       [\<lparr>ID = 0, Data = [1], AspectRatioID = 0\<rparr>,
        \<lparr>ID = 1, Data = [2], AspectRatioID = 0\<rparr>,
        \<lparr>ID = 2, Data = [7], AspectRatioID = 0\<rparr>] None"
    by (simp add: chatPrompt_eval picturesInPlace_def)
  from image_ids_are_positions [OF run] run show ?thesis
    by blast
qed

text \<open>
  C7, as stated, fails: the tagging loop runs after the reverse loop, over
  \<open>msgs[currMsgIdx:]\<close> only. A request whose first message carries an image and is
  dropped by truncation returns no image payload.
\<close>

theorem dropped_message_images_counterexample:
  "imageCount pictureThenText = 1 \<and>
   chatPrompt clipModel tokenizeBytes encodeIdentity \<lparr>NumCtx = 100\<rparr> pictureThenText [] =
     Returns ''hi'' [] None"
  by (simp add: chatPrompt_eval pictureThenText_def)

text \<open>
  C7, amended. Image tagging is performed after truncation, over the messages of the
  window \<open>msgs[n:]\<close> in order: the returned image payload sequence contains one entry for
  every image of every message of the window and none for the messages that truncation
  dropped; outside the mllama family the payloads carry the images' bytes in the order
  of appearance.
\<close>

theorem images_tagged_in_window:
  assumes "chatPrompt m tokenize preprocess opts msgs tools = Returns p images None"
  shows "\<exists>n system.
    truncateMessages m tokenize opts msgs tools = Ok (n, system) \<and>
    length images = imageCount (drop (nat n) msgs) \<and>
    (\<not> checkMllamaModelFamily m \<longrightarrow>
       map Data images = concat (map Images (drop (nat n) msgs)))"
proof -
  from assms obtain final where
    "chatMessages m tokenize preprocess opts msgs tools = Ok (final, images)"
    by (rule chatPrompt_Returns)
  then obtain n system w where
    tr: "truncateMessages m tokenize opts msgs tools = Ok (n, system)"
    and tag: "tagMessages (checkMllamaModelFamily m) preprocess (drop (nat n) msgs) [] =
                Ok (w, images)"
    by (rule chatMessages_Ok)
  from tagMessages_length [OF tag] have
    len: "length images = imageCount (drop (nat n) msgs)"
    by simp
  have "map Data images = concat (map Images (drop (nat n) msgs))"
    if "\<not> checkMllamaModelFamily m"
    using tag that tagMessages_data [of preprocess "drop (nat n) msgs" "[]" w images]
    by simp
  with tr len show ?thesis by blast
qed

theorem images_tagged_in_window_witness:
  "chatPrompt clipModel tokenizeBytes encodeIdentity \<lparr>NumCtx = 1000\<rparr> picturesInPlace [] =
     Returns ''[img-0]U'' [\<lparr>ID = 0, Data = [7], AspectRatioID = 0\<rparr>] None \<and>
   \<not> checkMllamaModelFamily clipModel \<and>
   (\<exists>n system.
      truncateMessages clipModel tokenizeBytes \<lparr>NumCtx = 1000\<rparr> picturesInPlace [] =
        Ok (n, system) \<and>
      length [\<lparr>ID = 0, Data = [7::nat], AspectRatioID = 0\<rparr>] =
        imageCount (drop (nat n) picturesInPlace) \<and>
      (\<not> checkMllamaModelFamily clipModel \<longrightarrow>
         map Data [\<lparr>ID = 0, Data = [7], AspectRatioID = 0\<rparr>] =
         concat (map Images (drop (nat n) picturesInPlace))))"
proof -
  have run: "chatPrompt clipModel tokenizeBytes encodeIdentity \<lparr>NumCtx = 1000\<rparr>
      picturesInPlace [] =
     Returns ''[img-0]U'' [\<lparr>ID = 0, Data = [7], AspectRatioID = 0\<rparr>] None"
    by (simp add: chatPrompt_eval picturesInPlace_def)
  have fam: "\<not> checkMllamaModelFamily clipModel"
    by (simp add: checkMllamaModelFamily_def clipModel_def)
  from images_tagged_in_window [OF run] run fam show ?thesis
    by blast
qed

section \<open>Properties of the response format\<close>

lemma enum_after_type:
  "fmupd ''enum'' x (fmupd ''type'' y m) = fmupd ''type'' y (fmupd ''enum'' x m)"
  by (rule fmupd_reorder_neq) simp

lemma required_after_properties:
  "fmupd ''required'' r (fmupd ''type'' t (fmupd ''properties'' p m)) =
   fmupd ''type'' t (fmupd ''properties'' p (fmupd ''required'' r m))"
proof -
  have "fmupd ''required'' r (fmupd ''type'' t (fmupd ''properties'' p m)) =
        fmupd ''type'' t (fmupd ''required'' r (fmupd ''properties'' p m))"
    by (rule fmupd_reorder_neq) simp
  also have "fmupd ''required'' r (fmupd ''properties'' p m) =
             fmupd ''properties'' p (fmupd ''required'' r m)"
    by (rule fmupd_reorder_neq) simp
  finally show ?thesis .
qed

text \<open>The conversion of a parameter schema: the \<open>required\<close> key is there exactly when a
  required name is declared, and the \<open>enum\<close> key of a property exactly when its enum is
  not empty.\<close>

lemma parametersFormat_shape:
  "\<exists>props. parametersFormat p =
      JObject (if Required p = []
               then fmap_of_list [(''type'', JString ''object''), (''properties'', JObject props)]
               else fmap_of_list [(''type'', JString ''object''), (''properties'', JObject props),
                                  (''required'', JStrings (Required p))]) \<and>
     fmdom props = fmdom (Properties p) \<and>
     (\<forall>name param. fmlookup (Properties p) name = Some param \<longrightarrow>
        fmlookup props name =
          Some (JObject (if Enum param = []
                         then fmap_of_list [(''type'', JString (Type param))]
                         else fmap_of_list [(''type'', JString (Type param)),
                                            (''enum'', JStrings (Enum param))])))"
  by (rule exI [where x = "fmmap (\<lambda>param.
                     let field = fmap_of_list [(''type'', JString (Type param))]
                     in JObject (if length (Enum param) > 0
                                 then fmupd ''enum'' (JStrings (Enum param)) field
                                 else field))
                  (Properties p)"])
    (auto simp: parametersFormat_def Let_def required_after_properties enum_after_type)

text \<open>\<open>chatFormat\<close> of the format file returns the request format when it is not empty
  or when there is no tool, and the serialised \<open>toolsFormat\<close> otherwise.\<close>

lemma chatFormat_cases:
  "chatFormat json_Marshal reqFormat tools =
     (if reqFormat \<noteq> [] \<or> tools = [] then reqFormat else json_Marshal (toolsFormat tools))"
  by (simp add: chatFormat_def)

text \<open>
  C8. The \<open>chatFormat\<close> of \<open>server/prompt.go\<close> has no guard for an empty tool list: with
  no request format and no tool it returns the serialisation of the object with the one
  key \<open>anyOf\<close> and an empty array, where the \<open>chatFormat\<close> of the format file returns the
  (empty) request format.
\<close>

theorem chatFormat_prompt_go_without_tools:
  "chatFormat_prompt_go json_Marshal [] [] =
     json_Marshal (JObject (fmap_of_list [(''anyOf'', JArray [])])) \<and>
   chatFormat json_Marshal [] [] = []"
  by (simp add: chatFormat_prompt_go_def chatFormat_def)

text \<open>
  C9. For a list of exactly one tool, \<open>toolsFormat\<close> yields the object schema of that
  tool, not wrapped in \<open>anyOf\<close>: \<open>name\<close> is a string with the enum of the function name,
  \<open>parameters\<close> is the converted parameter schema, and \<open>required\<close> is
  \<open>["name", "parameters"]\<close>. The converted parameter schema has the key \<open>required\<close> only
  when a required name is declared, and each property has the key \<open>enum\<close> only when its
  enum is not empty. The tool \<open>get_current_weather\<close> yields the schema of the example.
\<close>

theorem toolsFormat_single_tool:
  "toolsFormat [tool] =
     JObject (fmap_of_list
       [(''type'', JString ''object''),
        (''properties'', JObject (fmap_of_list
           [(''name'', JObject (fmap_of_list
               [(''type'', JString ''string''),
                (''enum'', JStrings [Name (Function tool)])])),
            (''parameters'', parametersFormat (Parameters (Function tool)))])),
        (''required'', JStrings [''name'', ''parameters''])]) \<and>
   (\<exists>props. parametersFormat p =
      JObject (if Required p = []
               then fmap_of_list [(''type'', JString ''object''), (''properties'', JObject props)]
               else fmap_of_list [(''type'', JString ''object''), (''properties'', JObject props),
                                  (''required'', JStrings (Required p))]) \<and>
     fmdom props = fmdom (Properties p) \<and>
     (\<forall>name param. fmlookup (Properties p) name = Some param \<longrightarrow>
        fmlookup props name =
          Some (JObject (if Enum param = []
                         then fmap_of_list [(''type'', JString (Type param))]
                         else fmap_of_list [(''type'', JString (Type param)),
                                            (''enum'', JStrings (Enum param))])))) \<and>
   toolsFormat [weatherTool] = weatherSchema"
proof (intro conjI)
  show "toolsFormat [tool] =
     JObject (fmap_of_list
       [(''type'', JString ''object''),
        (''properties'', JObject (fmap_of_list
           [(''name'', JObject (fmap_of_list
               [(''type'', JString ''string''),
                (''enum'', JStrings [Name (Function tool)])])),
            (''parameters'', parametersFormat (Parameters (Function tool)))])),
        (''required'', JStrings [''name'', ''parameters''])])"
    by (simp add: toolsFormat_def toolFormat_def)
  show "\<exists>props. parametersFormat p =
      JObject (if Required p = []
               then fmap_of_list [(''type'', JString ''object''), (''properties'', JObject props)]
               else fmap_of_list [(''type'', JString ''object''), (''properties'', JObject props),
                                  (''required'', JStrings (Required p))]) \<and>
     fmdom props = fmdom (Properties p) \<and>
     (\<forall>name param. fmlookup (Properties p) name = Some param \<longrightarrow>
        fmlookup props name =
          Some (JObject (if Enum param = []
                         then fmap_of_list [(''type'', JString (Type param))]
                         else fmap_of_list [(''type'', JString (Type param)),
                                            (''enum'', JStrings (Enum param))])))"
    by (rule parametersFormat_shape)
  show "toolsFormat [weatherTool] = weatherSchema"
    by (simp add: toolsFormat_def toolFormat_def parametersFormat_def weatherTool_def
        weatherSchema_def fmmap_fmupd required_after_properties)
qed

theorem toolsFormat_single_tool_witness:
  "fmlookup (Properties (Parameters (Function weatherTool))) ''location'' =
     Some \<lparr>Type = ''string'', Enum = []\<rparr> \<and>
   Required (Parameters (Function weatherTool)) \<noteq> [] \<and>
   (\<exists>props. parametersFormat (Parameters (Function weatherTool)) =
      JObject (fmap_of_list [(''type'', JString ''object''), (''properties'', JObject props),
                             (''required'', JStrings [''location''])]) \<and>
      fmlookup props ''location'' = Some (JObject (fmap_of_list [(''type'', JString ''string'')])))"
proof -
  have loc: "fmlookup (Properties (Parameters (Function weatherTool))) ''location'' =
     Some \<lparr>Type = ''string'', Enum = []\<rparr>"
    by (simp add: weatherTool_def)
  have req: "Required (Parameters (Function weatherTool)) = [''location'']"
    by (simp add: weatherTool_def)
  from toolsFormat_single_tool [of weatherTool "Parameters (Function weatherTool)"]
  obtain props where
    shape: "parametersFormat (Parameters (Function weatherTool)) =
      JObject (if Required (Parameters (Function weatherTool)) = []
               then fmap_of_list [(''type'', JString ''object''), (''properties'', JObject props)]
               else fmap_of_list [(''type'', JString ''object''), (''properties'', JObject props),
                                  (''required'',
                                   JStrings (Required (Parameters (Function weatherTool))))])"
    and each: "\<forall>name param.
        fmlookup (Properties (Parameters (Function weatherTool))) name = Some param \<longrightarrow>
        fmlookup props name =
          Some (JObject (if Enum param = []
                         then fmap_of_list [(''type'', JString (Type param))]
                         else fmap_of_list [(''type'', JString (Type param)),
                                            (''enum'', JStrings (Enum param))]))"
    by blast
  from each loc have
    "fmlookup props ''location'' = Some (JObject (fmap_of_list [(''type'', JString ''string'')]))"
    by fastforce
  with shape req loc show ?thesis by auto
qed

end
